theory Spec2Isabelle
  imports Main "HOL-Library.AList" "HOL-Library.Sublist"
begin

section \<open>Data model\<close>

text \<open>
  The checker compares the parameters of a CloudStack command (taken from a
  \<^verbatim>\<open>listApis\<close> response) with the exported fields of the Go struct of the
  same name. Go maps are association lists here, written and read only through
  \<open>AList.update\<close>, \<open>AList.delete\<close> and \<open>map_of\<close>; the order of a list stands
  for the (unspecified) iteration order of the Go map.
\<close>

text \<open>One entry of \<^verbatim>\<open>a.Params\<close> or \<^verbatim>\<open>a.Response\<close>: the four members the checker reads.\<close>

record param =
  Name :: string
  Type :: string
  Required :: bool
  Description :: string

text \<open>One entry of \<^verbatim>\<open>apis.API\<close>.\<close>

record api =
  api_Name :: string
  IsAsync :: bool
  Params :: "param list"
  Response :: "param list"

text \<open>
  \<^verbatim>\<open>fieldInfo\<close>. Of \<^verbatim>\<open>Var\<close> only \<^verbatim>\<open>Var.Type().String()\<close> is ever read, so
  \<open>VarType\<close> holds that string.
\<close>

record fieldInfo =
  VarType :: string
  OmitEmpty :: bool
  Doc :: string

text \<open>
  Field \<open>i\<close> of a \<^verbatim>\<open>*types.Struct\<close> together with its tag. The two regular
  expressions are library code; a field carries what they return on its tag:
  \<open>sf_json\<close> is \<^verbatim>\<open>re.FindStringSubmatch(tag)\<close>, \<open>None\<close> when nothing matches and
  otherwise the groups \<^verbatim>\<open>match[1]\<close> and \<^verbatim>\<open>match[2]\<close>; \<open>sf_doc\<close> is the group of
  \<^verbatim>\<open>reDoc\<close>.
\<close>

record struct_field =
  sf_Name :: string
  sf_IsField :: bool
  sf_Exported :: bool
  sf_TypeString :: string
  sf_json :: "(string \<times> string) option"
  sf_doc :: "string option"

text \<open>
  The values stored in \<^verbatim>\<open>command.errors\<close>. The source builds them with
  \<^verbatim>\<open>fmt.Errorf\<close>; each constructor is one format string and carries its arguments:
  \<^item> \<open>MissingSerializedName\<close>: \<^verbatim>\<open>Field error: no json annotation found\<close>
  \<^item> \<open>MissingField p\<close>: \<^verbatim>\<open>missing field: ...\<close>, all arguments come from \<open>p\<close>
  \<^item> \<open>DocumentationMissing d\<close>: \<^verbatim>\<open>missing doc: `doc:%q`\<close>
  \<^item> \<open>DocumentationMismatch d doc\<close>: \<^verbatim>\<open>wrong doc want %q got %q\<close>
  \<^item> \<open>OptionalityMismatch name omit\<close>: \<^verbatim>\<open>wrong omitempty, want `json:"%s%s"`\<close>
  \<^item> \<open>UnknownSpecCategory type typename\<close>: \<^verbatim>\<open>Unknown type %q <=> %q\<close>
  \<^item> \<open>TypeMismatch expected typename\<close>: \<^verbatim>\<open>Expected to be a %s, got %q\<close>
  \<^item> \<open>ExtraField\<close>: \<^verbatim>\<open>Extra field found\<close>
\<close>

datatype verror =
    MissingSerializedName
  | MissingField param
  | DocumentationMissing string
  | DocumentationMismatch string string
  | OptionalityMismatch string string
  | UnknownSpecCategory string string
  | TypeMismatch string string
  | ExtraField

type_synonym fields_map = "(string \<times> fieldInfo) list"
type_synonym errors_map = "(string \<times> verror) list"

text \<open>\<^verbatim>\<open>command\<close>: a struct of the source code under check.\<close>

record command =
  cmd_name :: string
  cmd_sync :: string
  cmd_s :: "struct_field list"
  cmd_position :: nat
  cmd_fields :: fields_map
  cmd_errors :: errors_map

text \<open>An entry of \<^verbatim>\<open>info.Defs\<close>: \<open>None\<close> is a nil object.\<close>

record object =
  obj_Name :: string
  obj_Exported :: bool
  obj_Struct :: "struct_field list option"
  obj_Pos :: nat

text \<open>What the reporting loop prints on standard output, one value per line.\<close>

datatype out_line =
    SummaryLine nat nat string string
  | ErrorLine string verror
  | Trailer nat string string nat
  | NotFound string

section \<open>Collecting the fields of a struct (lines 123--150)\<close>

fun build_fields :: "struct_field list \<Rightarrow> fields_map \<times> errors_map \<Rightarrow> fields_map \<times> errors_map" where
  "build_fields [] st = st"
| "build_fields (f # fs) (flds, errs) =
     (if \<not> sf_IsField f \<or> \<not> sf_Exported f then build_fields fs (flds, errs)
      else case sf_json f of
        None \<Rightarrow> build_fields fs (flds, AList.update (sf_Name f) MissingSerializedName errs)
      | Some (name, omitgroup) \<Rightarrow>
          let omitempty = (omitgroup = '',omitempty'');
              doc = (case sf_doc f of Some d \<Rightarrow> d | None \<Rightarrow> '''')
          in build_fields fs
               (AList.update name \<lparr>VarType = sf_TypeString f, OmitEmpty = omitempty, Doc = doc\<rparr> flds,
                errs))"

section \<open>The matcher (lines 152--230)\<close>

text \<open>\<^verbatim>\<open>omit\<close>, lines 155--158.\<close>

definition omit_of :: "param \<Rightarrow> string" where
  "omit_of p = (if \<not> Required p then '',omitempty'' else '''')"

text \<open>The documentation check, lines 172--178: the error it assigns, if any.\<close>

definition doc_check :: "param \<Rightarrow> fieldInfo \<Rightarrow> verror option" where
  "doc_check p field =
     (if Doc field \<noteq> Description p then
        (if Doc field = '''' then Some (DocumentationMissing (Description p))
         else Some (DocumentationMismatch (Description p) (Doc field)))
      else None)"

text \<open>
  The \<^verbatim>\<open>switch p.Type\<close> of lines 185--221. The result is the value of
  \<^verbatim>\<open>expected\<close> after the switch and whether the \<^verbatim>\<open>default\<close> branch ran. A Go
  \<^verbatim>\<open>case\<close> does not fall through, so \<^verbatim>\<open>string\<close>, \<^verbatim>\<open>uuid\<close>, \<^verbatim>\<open>date\<close> and
  \<^verbatim>\<open>map\<close> have empty bodies.
\<close>

definition type_switch :: "string \<Rightarrow> string \<Rightarrow> string \<times> bool" where
  "type_switch ptype typename =
     (if ptype = ''short'' then (if typename \<noteq> ''int16'' then ''int16'' else '''', False)
      else if ptype = ''integer'' then (if typename \<noteq> ''int'' then ''int'' else '''', False)
      else if ptype = ''long'' then (if typename \<noteq> ''int64'' then ''int64'' else '''', False)
      else if ptype = ''boolean'' then
        (if typename \<noteq> ''bool'' \<and> typename \<noteq> ''*bool'' then ''bool'' else '''', False)
      else if ptype = ''string'' then ('''', False)
      else if ptype = ''uuid'' then ('''', False)
      else if ptype = ''date'' then ('''', False)
      else if ptype = ''tzdate'' then (if typename \<noteq> ''string'' then ''string'' else '''', False)
      else if ptype = ''list'' then (if \<not> prefix ''[]'' typename then ''[]string'' else '''', False)
      else if ptype = ''map'' then ('''', False)
      else if ptype = ''set'' then (if \<not> prefix ''[]'' typename then ''array'' else '''', False)
      else ('''', True))"

text \<open>The labels of that switch.\<close>

definition known_types :: "string list" where
  "known_types = [''short'', ''integer'', ''long'', ''boolean'', ''string'', ''uuid'', ''date'',
                  ''tzdate'', ''list'', ''map'', ''set'']"

text \<open>The body of the loop over \<^verbatim>\<open>params\<close>, lines 153--225, on \<^verbatim>\<open>(command.fields, command.errors)\<close>.\<close>

definition match_param :: "param \<Rightarrow> fields_map \<times> errors_map \<Rightarrow> fields_map \<times> errors_map" where
  "match_param p st =
     (case st of (flds, errs) \<Rightarrow>
        (case map_of flds (Name p) of
           None \<Rightarrow> (flds, AList.update (Name p) (MissingField p) errs)
         | Some field \<Rightarrow>
             let flds1 = AList.delete (Name p) flds;
                 typename = VarType field;
                 errs1 = (case doc_check p field of
                            Some e \<Rightarrow> AList.update (Name p) e errs
                          | None \<Rightarrow> errs)
             in if Required p = OmitEmpty field
                then (flds1, AList.update (Name p) (OptionalityMismatch (Name p) (omit_of p)) errs1)
                else
                  let sw = type_switch (Type p) typename;
                      expected = fst sw;
                      errs2 = (if snd sw
                               then AList.update (Name p) (UnknownSpecCategory (Type p) typename) errs1
                               else errs1);
                      errs3 = (if expected \<noteq> ''''
                               then AList.update (Name p) (TypeMismatch expected typename) errs2
                               else errs2)
                  in (flds1, errs3)))"

fun match_params :: "param list \<Rightarrow> fields_map \<times> errors_map \<Rightarrow> fields_map \<times> errors_map" where
  "match_params [] st = st"
| "match_params (p # ps) st = match_params ps (match_param p st)"

text \<open>Lines 228--230: every name still in \<^verbatim>\<open>command.fields\<close> gets the extra-field error.\<close>

fun extra_fields :: "fields_map \<Rightarrow> errors_map \<Rightarrow> errors_map" where
  "extra_fields [] errs = errs"
| "extra_fields ((name, f) # rest) errs = extra_fields rest (AList.update name ExtraField errs)"

definition matcher :: "param list \<Rightarrow> fields_map \<times> errors_map \<Rightarrow> fields_map \<times> errors_map" where
  "matcher params st =
     (let st' = match_params params st in (fst st', extra_fields (fst st') (snd st')))"

text \<open>
  The errors assigned to \<^verbatim>\<open>command.errors[p.Name]\<close> by one pass of the loop body
  for a parameter that met its field, in the order of the assignments.
\<close>

definition assigned :: "param \<Rightarrow> fieldInfo \<Rightarrow> verror list" where
  "assigned p field =
     (case doc_check p field of Some e \<Rightarrow> [e] | None \<Rightarrow> []) @
     (if Required p = OmitEmpty field then [OptionalityMismatch (Name p) (omit_of p)]
      else (if snd (type_switch (Type p) (VarType field))
            then [UnknownSpecCategory (Type p) (VarType field)] else []) @
           (if fst (type_switch (Type p) (VarType field)) \<noteq> ''''
            then [TypeMismatch (fst (type_switch (Type p) (VarType field))) (VarType field)]
            else []))"

text \<open>The errors that the type switch can assign.\<close>

fun is_type_failure :: "verror \<Rightarrow> bool" where
  "is_type_failure (TypeMismatch expected typename) = True"
| "is_type_failure (UnknownSpecCategory ptype typename) = True"
| "is_type_failure e = False"

section \<open>One command checked against one API entry (lines 115--230)\<close>

definition check_command :: "api \<Rightarrow> param list \<Rightarrow> command \<Rightarrow> command" where
  "check_command a params c =
     (let c1 = c\<lparr>cmd_fields := [], cmd_errors := []\<rparr>;
          c2 = (if IsAsync a then c1\<lparr>cmd_sync := '' (A)''\<rparr> else c1);
          st = build_fields (cmd_s c2) (cmd_fields c2, cmd_errors c2);
          st' = matcher params st
      in c2\<lparr>cmd_fields := fst st', cmd_errors := snd st'\<rparr>)"

section \<open>The program (lines 78--254)\<close>

text \<open>
  \<^verbatim>\<open>strings.ToLower\<close> is library code: the functions below take it as the
  argument \<open>lower\<close>.
\<close>

text \<open>Lines 80--95, over \<^verbatim>\<open>info.Defs\<close> in the order the map is walked.\<close>

fun build_commands :: "(string \<Rightarrow> string) \<Rightarrow> object option list \<Rightarrow> (string \<times> command) list
    \<Rightarrow> (string \<times> command) list" where
  "build_commands lower [] commands = commands"
| "build_commands lower (None # defs) commands = build_commands lower defs commands"
| "build_commands lower (Some obj # defs) commands =
     (if \<not> obj_Exported obj then build_commands lower defs commands
      else case obj_Struct obj of
        None \<Rightarrow> build_commands lower defs commands
      | Some st \<Rightarrow>
          build_commands lower defs
            (AList.update (lower (obj_Name obj))
               \<lparr>cmd_name = obj_Name obj, cmd_sync = '''', cmd_s = st, cmd_position = obj_Pos obj,
                cmd_fields = [], cmd_errors = []\<rparr> commands))"

text \<open>
  The body of the loop over \<^verbatim>\<open>apis.API\<close>, lines 101--231, on \<^verbatim>\<open>(*cmd, commands)\<close>.
  \<^verbatim>\<open>commands\<close> holds pointers, so the checked command replaces the old one under
  its key.
\<close>

definition api_step :: "(string \<Rightarrow> string) \<Rightarrow> string \<Rightarrow> api \<Rightarrow> string \<times> (string \<times> command) list
    \<Rightarrow> string \<times> (string \<times> command) list" where
  "api_step lower rtype a st =
     (case st of (cmd, commands) \<Rightarrow>
        let name = lower (api_Name a);
            redirect = (lower cmd = name \<and> rtype \<noteq> '''');
            name' = (if redirect then lower rtype else name);
            cmd' = (if redirect then name' else cmd);
            params = (if redirect then Response a else Params a)
        in (case map_of commands name' of
              None \<Rightarrow> (cmd', commands)
            | Some c \<Rightarrow> (cmd', AList.update name' (check_command a params c) commands)))"

fun process_apis :: "(string \<Rightarrow> string) \<Rightarrow> string \<Rightarrow> api list \<Rightarrow> string \<times> (string \<times> command) list
    \<Rightarrow> string \<times> (string \<times> command) list" where
  "process_apis lower rtype [] st = st"
| "process_apis lower rtype (a # as) st = process_apis lower rtype as (api_step lower rtype a st)"

text \<open>
  \<^verbatim>\<open>os.Exit(code)\<close> ends the process; the exit status that the parent process reads
  on a POSIX system is the low 8 bits of \<^verbatim>\<open>code\<close>.
\<close>

definition os_Exit :: "int \<Rightarrow> int" where
  "os_Exit code = code mod 256"

text \<open>
  Lines 234--254: the lines printed and the exit status of the process (0 when
  \<^verbatim>\<open>main\<close> returns).
\<close>

fun report :: "(string \<Rightarrow> string) \<Rightarrow> string \<Rightarrow> (string \<times> command) list \<Rightarrow> out_line list
    \<Rightarrow> out_line list \<times> int" where
  "report lower cmd [] out =
     (if cmd \<noteq> '''' then (out @ [NotFound cmd], os_Exit 1) else (out, 0))"
| "report lower cmd ((name, c) # rest) out =
     (let pos = cmd_position c; er = length (cmd_errors c)
      in if cmd = '''' then
           (if er \<noteq> 0 then report lower cmd rest (out @ [SummaryLine er pos (cmd_name c) (cmd_sync c)])
            else report lower cmd rest out)
         else if lower cmd = name then
           (out @ map (\<lambda>(k, e). ErrorLine k e) (cmd_errors c)
                @ [Trailer pos (cmd_name c) (cmd_sync c) er],
            os_Exit (int er))
         else report lower cmd rest out)"

definition main_run :: "(string \<Rightarrow> string) \<Rightarrow> string \<Rightarrow> string \<Rightarrow> api list \<Rightarrow> object option list
    \<Rightarrow> out_line list \<times> int" where
  "main_run lower cmd rtype apis defs =
     (let st = process_apis lower rtype apis (cmd, build_commands lower defs [])
      in report lower (fst st) (snd st) [])"

section \<open>Properties of the loops\<close>

lemma map_of_absent_iff: "map_of al n = None \<longleftrightarrow> n \<notin> fst ` set al"
  by (simp add: map_of_eq_None_iff)

lemma match_param_other:
  assumes "n \<noteq> Name p"
  shows "map_of (fst (match_param p st)) n = map_of (fst st) n"
    and "map_of (snd (match_param p st)) n = map_of (snd st) n"
  using assms
  by (auto simp: match_param_def Let_def update_conv' delete_conv' split: prod.splits option.splits)

lemma match_params_other:
  assumes "n \<notin> set (map Name ps)"
  shows "map_of (fst (match_params ps st)) n = map_of (fst st) n"
    and "map_of (snd (match_params ps st)) n = map_of (snd st) n"
  using assms
  by (induction ps arbitrary: st) (auto simp: match_param_other)

lemma map_of_foldl_update:
  "map_of (foldl (\<lambda>e v. AList.update k v e) errs vs) k =
     (if vs = [] then map_of errs k else Some (last vs))"
  by (induction vs arbitrary: errs) (auto simp: update_conv')

lemma match_param_matched:
  assumes "map_of flds (Name p) = Some f"
  shows "match_param p (flds, errs) =
           (AList.delete (Name p) flds, foldl (\<lambda>e v. AList.update (Name p) v e) errs (assigned p f))"
  using assms
  by (auto simp: match_param_def assigned_def Let_def split: option.splits)

lemma match_param_unmatched:
  assumes "map_of flds (Name p) = None"
  shows "match_param p (flds, errs) = (flds, AList.update (Name p) (MissingField p) errs)"
  using assms by (simp add: match_param_def)

lemma match_param_absent:
  assumes "map_of (fst st) n = None"
  shows "map_of (fst (match_param p st)) n = None"
  using assms
  by (auto simp: match_param_def Let_def delete_conv' split: prod.splits option.splits)

lemma match_params_absent:
  assumes "map_of (fst st) n = None"
  shows "map_of (fst (match_params ps st)) n = None"
  using assms
  by (induction ps arbitrary: st) (auto simp: match_param_absent)

lemma match_params_append:
  "match_params (ps @ qs) st = match_params qs (match_params ps st)"
  by (induction ps arbitrary: st) auto

lemma extra_fields_map_of:
  "map_of (extra_fields flds errs) n =
     (if n \<in> fst ` set flds then Some ExtraField else map_of errs n)"
  by (induction flds errs rule: extra_fields.induct) (auto simp: update_conv')

lemma match_params_absent_errors:
  assumes "map_of (fst st) n = None"
  shows "map_of (snd (match_params qs st)) n =
           (case filter (\<lambda>q. Name q = n) qs of
              [] \<Rightarrow> map_of (snd st) n
            | q # qs' \<Rightarrow> Some (MissingField (last (q # qs'))))"
  using assms
proof (induction qs arbitrary: st)
  case Nil
  then show ?case by simp
next
  case (Cons q qs)
  obtain flds errs where st: "st = (flds, errs)" by (cases st)
  show ?case
  proof (cases "Name q = n")
    case True
    with Cons.prems st have step: "match_param q st = (flds, AList.update n (MissingField q) errs)"
      by (simp add: match_param_unmatched)
    have "map_of (fst (match_param q st)) n = None"
      using Cons.prems by (rule match_param_absent)
    from Cons.IH[OF this] show ?thesis
      using True step by (auto simp: update_conv' split: list.splits)
  next
    case False
    have "map_of (fst (match_param q st)) n = None"
      using Cons.prems by (rule match_param_absent)
    moreover have "map_of (snd (match_param q st)) n = map_of (snd st) n"
      using False by (intro match_param_other) auto
    ultimately show ?thesis
      using False Cons.IH[of "match_param q st"] by (simp split: list.splits)
  qed
qed

lemma matcher_errors_absent:
  assumes "map_of (fst (match_params ps st)) n = None"
  shows "map_of (snd (matcher ps st)) n = map_of (snd (match_params ps st)) n"
  using assms by (simp add: matcher_def Let_def extra_fields_map_of map_of_absent_iff)

lemma match_params_matched_prefix:
  assumes f: "map_of flds (Name p) = Some f"
    and ps: "Name p \<notin> set (map Name ps)"
  shows "match_params (ps @ [p]) (flds, errs) =
           (AList.delete (Name p) (fst (match_params ps (flds, errs))),
            foldl (\<lambda>e v. AList.update (Name p) v e) (snd (match_params ps (flds, errs))) (assigned p f))"
proof -
  have "map_of (fst (match_params ps (flds, errs))) (Name p) = Some f"
    using match_params_other(1)[OF ps, of "(flds, errs)"] f by simp
  then have "match_param p (fst (match_params ps (flds, errs)), snd (match_params ps (flds, errs))) =
           (AList.delete (Name p) (fst (match_params ps (flds, errs))),
            foldl (\<lambda>e v. AList.update (Name p) v e) (snd (match_params ps (flds, errs))) (assigned p f))"
    by (rule match_param_matched)
  then show ?thesis
    by (simp add: match_params_append)
qed

lemma match_params_recorded:
  assumes f: "map_of flds (Name p) = Some f"
    and ps: "Name p \<notin> set (map Name ps)"
  shows "map_of (snd (match_params (ps @ [p]) (flds, errs))) (Name p) =
           (if assigned p f = [] then map_of errs (Name p) else Some (last (assigned p f)))"
    and "map_of (fst (match_params (ps @ [p]) (flds, errs))) (Name p) = None"
  using match_params_other(2)[OF ps, of "(flds, errs)"]
  by (simp_all add: match_params_matched_prefix[OF f ps] map_of_foldl_update delete_conv')

lemma matcher_matched_general:
  assumes f: "map_of flds (Name p) = Some f"
    and ps: "Name p \<notin> set (map Name ps)"
  shows "map_of (snd (matcher (ps @ p # qs) (flds, errs))) (Name p) =
           (case filter (\<lambda>q. Name q = Name p) qs of
              [] \<Rightarrow> (if assigned p f = [] then map_of errs (Name p) else Some (last (assigned p f)))
            | q # qs' \<Rightarrow> Some (MissingField (last (q # qs'))))"
proof -
  let ?st2 = "match_params (ps @ [p]) (flds, errs)"
  have run: "match_params (ps @ p # qs) (flds, errs) = match_params qs ?st2"
    by (simp add: match_params_append)
  have gone: "map_of (fst ?st2) (Name p) = None"
    using f ps by (rule match_params_recorded(2))
  then have gone3: "map_of (fst (match_params qs ?st2)) (Name p) = None"
    by (rule match_params_absent)
  have "map_of (snd (matcher (ps @ p # qs) (flds, errs))) (Name p) =
          map_of (snd (match_params qs ?st2)) (Name p)"
    using gone3 matcher_errors_absent[of "ps @ p # qs" "(flds, errs)" "Name p"]
    by (simp only: run)
  also have "\<dots> = (case filter (\<lambda>q. Name q = Name p) qs of
              [] \<Rightarrow> map_of (snd ?st2) (Name p)
            | q # qs' \<Rightarrow> Some (MissingField (last (q # qs'))))"
    using gone by (rule match_params_absent_errors)
  finally show ?thesis
    by (simp only: match_params_recorded(1)[OF f ps])
qed

lemma matcher_matched:
  assumes f: "map_of flds (Name p) = Some f"
    and ps: "Name p \<notin> set (map Name ps)"
    and qs: "Name p \<notin> set (map Name qs)"
  shows "map_of (snd (matcher (ps @ p # qs) (flds, errs))) (Name p) =
           (if assigned p f = [] then map_of errs (Name p) else Some (last (assigned p f)))"
proof -
  have "filter (\<lambda>q. Name q = Name p) qs = []"
    using qs by (induction qs) auto
  then show ?thesis
    using matcher_matched_general[OF f ps, of qs errs] by simp
qed

lemma type_switch_unknown:
  assumes "t \<notin> set known_types"
  shows "type_switch t tn = ('''', True)"
  using assms by (simp add: known_types_def type_switch_def)

lemma assigned_optionality:
  assumes "Required p = OmitEmpty f"
  shows "assigned p f \<noteq> []" and "last (assigned p f) = OptionalityMismatch (Name p) (omit_of p)"
  using assms by (simp_all add: assigned_def)

lemma assigned_unknown:
  assumes "Required p \<noteq> OmitEmpty f" and "Type p \<notin> set known_types"
  shows "assigned p f \<noteq> []" and "last (assigned p f) = UnknownSpecCategory (Type p) (VarType f)"
  using assms by (simp_all add: assigned_def type_switch_unknown)

lemma assigned_type_ok:
  assumes "Required p \<noteq> OmitEmpty f" and "type_switch (Type p) (VarType f) = ('''', False)"
  shows "assigned p f = (case doc_check p f of Some e \<Rightarrow> [e] | None \<Rightarrow> [])"
  using assms by (simp add: assigned_def)

lemma assigned_type_mismatch:
  assumes "Required p \<noteq> OmitEmpty f" and "fst (type_switch (Type p) (VarType f)) \<noteq> ''''"
  shows "assigned p f \<noteq> []"
    and "last (assigned p f) = TypeMismatch (fst (type_switch (Type p) (VarType f))) (VarType f)"
  using assms by (simp_all add: assigned_def)

lemma match_param_distinct:
  assumes "distinct (map fst (snd st))"
  shows "distinct (map fst (snd (match_param p st)))"
  using assms
  by (auto simp: match_param_def Let_def distinct_update split: prod.splits option.splits)

lemma match_params_distinct:
  assumes "distinct (map fst (snd st))"
  shows "distinct (map fst (snd (match_params ps st)))"
  using assms by (induction ps arbitrary: st) (auto simp: match_param_distinct)

lemma extra_fields_distinct:
  assumes "distinct (map fst errs)"
  shows "distinct (map fst (extra_fields flds errs))"
  using assms by (induction flds errs rule: extra_fields.induct) (auto simp: distinct_update)

lemma matcher_distinct:
  assumes "distinct (map fst (snd st))"
  shows "distinct (map fst (snd (matcher ps st)))"
  using assms by (simp add: matcher_def Let_def extra_fields_distinct match_params_distinct)



lemma filter_key_distinct:
  assumes "distinct (map fst al)" and "map_of al n = Some v"
  shows "filter (\<lambda>kv. fst kv = n) al = [(n, v)]"
  using assms
proof (induction al)
  case Nil
  then show ?case by simp
next
  case (Cons kv al)
  show ?case
  proof (cases "fst kv = n")
    case True
    then have "n \<notin> fst ` set al" using Cons.prems(1) by auto
    then have "filter (\<lambda>kv. fst kv = n) al = []"
      by (auto simp: filter_empty_conv)
    then show ?thesis using True Cons.prems(2) by (cases kv) auto
  next
    case False
    then show ?thesis using Cons by (cases kv) auto
  qed
qed

lemma assigned_type_failure_last:
  "list_ex is_type_failure (assigned p f) \<Longrightarrow> is_type_failure (last (assigned p f))"
  by (auto simp: assigned_def doc_check_def split: if_splits)

lemma report_detail:
  assumes "cmd \<noteq> ''''"
  shows "report lower cmd commands out =
           (case map_of commands (lower cmd) of
              None \<Rightarrow> (out @ [NotFound cmd], 1)
            | Some c \<Rightarrow>
                (out @ map (\<lambda>(k, e). ErrorLine k e) (cmd_errors c)
                     @ [Trailer (cmd_position c) (cmd_name c) (cmd_sync c) (length (cmd_errors c))],
                 int (length (cmd_errors c)) mod 256))"
  using assms
  by (induction lower cmd commands out rule: report.induct) (auto simp: Let_def os_Exit_def)


lemma set_update_subset: "set (AList.update k v al) \<subseteq> insert (k, v) (set al)"
  by (induction al) auto

lemma update_preserves:
  assumes "\<forall>c \<in> snd ` set al. P c" and "P v"
  shows "\<forall>c \<in> snd ` set (AList.update k v al). P c"
proof
  fix c
  assume "c \<in> snd ` set (AList.update k v al)"
  then obtain k' where "(k', c) \<in> set (AList.update k v al)" by auto
  then have "(k', c) = (k, v) \<or> (k', c) \<in> set al"
    using set_update_subset[of k v al] by blast
  then show "P c"
    using assms by force
qed

lemma build_commands_fresh:
  assumes "\<forall>c \<in> snd ` set cs. cmd_errors c = [] \<and> cmd_sync c = ''''"
  shows "\<forall>c \<in> snd ` set (build_commands lower defs cs). cmd_errors c = [] \<and> cmd_sync c = ''''"
  using assms
proof (induction defs arbitrary: cs)
  case Nil
  then show ?case by simp
next
  case (Cons d defs)
  show ?case
  proof (cases d)
    case None
    then show ?thesis using Cons.IH[OF Cons.prems] by simp
  next
    case (Some obj)
    show ?thesis
    proof (cases "obj_Exported obj")
      case False
      then show ?thesis using Cons.IH[OF Cons.prems] Some by simp
    next
      case True
      show ?thesis
      proof (cases "obj_Struct obj")
        case None
        then show ?thesis using Cons.IH[OF Cons.prems] \<open>d = Some obj\<close> True by simp
      next
        case (Some st)
        let ?c = "\<lparr>cmd_name = obj_Name obj, cmd_sync = '''', cmd_s = st, cmd_position = obj_Pos obj,
                  cmd_fields = [], cmd_errors = []\<rparr>"
        have "cmd_errors ?c = [] \<and> cmd_sync ?c = ''''" by simp
        with Cons.prems
        have "\<forall>c \<in> snd ` set (AList.update (lower (obj_Name obj)) ?c cs).
                cmd_errors c = [] \<and> cmd_sync c = ''''"
          by (rule update_preserves)
        then have "\<forall>c \<in> snd ` set (build_commands lower defs
                      (AList.update (lower (obj_Name obj)) ?c cs)).
                cmd_errors c = [] \<and> cmd_sync c = ''''"
          by (rule Cons.IH)
        then show ?thesis
          using \<open>d = Some obj\<close> True Some by simp
      qed
    qed
  qed
qed



lemma api_step_untouched:
  assumes "lower (api_Name a) \<noteq> lower cmd"
  shows "fst (api_step lower rtype a (cmd, commands)) = cmd"
    and "map_of (snd (api_step lower rtype a (cmd, commands))) (lower cmd) =
           map_of commands (lower cmd)"
  using assms by (auto simp: api_step_def Let_def update_conv' split: option.splits)

lemma process_apis_untouched:
  assumes "\<forall>a \<in> set apis. lower (api_Name a) \<noteq> lower cmd"
  shows "fst (process_apis lower rtype apis (cmd, commands)) = cmd
       \<and> map_of (snd (process_apis lower rtype apis (cmd, commands))) (lower cmd) =
           map_of commands (lower cmd)"
  using assms
proof (induction apis arbitrary: commands)
  case Nil
  then show ?case by simp
next
  case (Cons a apis)
  then have a: "lower (api_Name a) \<noteq> lower cmd" by simp
  obtain commands' where step: "api_step lower rtype a (cmd, commands) = (cmd, commands')"
    using api_step_untouched(1)[OF a, of rtype commands]
    by (cases "api_step lower rtype a (cmd, commands)") auto
  have "map_of commands' (lower cmd) = map_of commands (lower cmd)"
    using api_step_untouched(2)[OF a, of rtype commands] step by simp
  then show ?case
    using Cons.IH[of commands'] Cons.prems step by simp
qed


lemma check_command_reset:
  "check_command a params (c\<lparr>cmd_fields := flds, cmd_errors := errs\<rparr>) = check_command a params c"
  by (simp add: check_command_def Let_def)

lemma check_command_idem:
  "check_command a params (check_command a params c) = check_command a params c"
  by (simp add: check_command_def Let_def)

lemma api_step_twice:
  "api_step lower '''' a (api_step lower '''' a st) = api_step lower '''' a st"
proof -
  obtain cmd commands where st: "st = (cmd, commands)" by (cases st)
  show ?thesis
    by (auto simp: st api_step_def Let_def update_conv' check_command_idem split: option.splits)
qed





section \<open>The claims\<close>

subsection \<open>C1: an unknown type category\<close>

text \<open>
  C1, as amended. A parameter whose type is none of the labels of the switch, which
  meets its field, whose name no other parameter uses and whose \<^verbatim>\<open>Required\<close>
  differs from the field's \<^verbatim>\<open>OmitEmpty\<close>, ends with the unknown-type error under
  its name, whatever the documentation check or an earlier loop had stored there. (When
  \<^verbatim>\<open>Required\<close> equals \<^verbatim>\<open>OmitEmpty\<close> the loop body leaves before the switch and
  the optionality error stays: the counterexample below.)
\<close>

theorem unknown_category_recorded:
  assumes "map_of flds (Name p) = Some f"
    and "Name p \<notin> set (map Name ps)"
    and "Name p \<notin> set (map Name qs)"
    and "Required p \<noteq> OmitEmpty f"
    and "Type p \<notin> set known_types"
  shows "map_of (snd (matcher (ps @ p # qs) (flds, errs))) (Name p) =
           Some (UnknownSpecCategory (Type p) (VarType f))"
  using matcher_matched[OF assms(1-3), of errs] assigned_unknown[OF assms(4,5)]
  by simp

theorem unknown_category_recorded_witness:
  "map_of [(''size'', \<lparr>VarType = ''int'', OmitEmpty = False, Doc = ''''\<rparr>)] ''size''
     = Some \<lparr>VarType = ''int'', OmitEmpty = False, Doc = ''''\<rparr>
   \<and> ''size'' \<notin> set (map Name [])
   \<and> Required \<lparr>Name = ''size'', Type = ''weirdtype'', Required = True, Description = ''Size''\<rparr>
       \<noteq> OmitEmpty \<lparr>VarType = ''int'', OmitEmpty = False, Doc = ''''\<rparr>
   \<and> ''weirdtype'' \<notin> set known_types
   \<and> map_of (snd (matcher
        [\<lparr>Name = ''size'', Type = ''weirdtype'', Required = True, Description = ''Size''\<rparr>]
        ([(''size'', \<lparr>VarType = ''int'', OmitEmpty = False, Doc = ''''\<rparr>)],
         [(''size'', MissingSerializedName)]))) ''size''
     = Some (UnknownSpecCategory ''weirdtype'' ''int'')"
  using unknown_category_recorded[where
      flds = "[(''size'', \<lparr>VarType = ''int'', OmitEmpty = False, Doc = ''''\<rparr>)]"
      and p = "\<lparr>Name = ''size'', Type = ''weirdtype'', Required = True, Description = ''Size''\<rparr>"
      and f = "\<lparr>VarType = ''int'', OmitEmpty = False, Doc = ''''\<rparr>"
      and ps = "[]" and qs = "[]" and errs = "[(''size'', MissingSerializedName)]"]
  by (simp add: known_types_def)

theorem unknown_category_counterexample:
  "map_of (snd (matcher
        [\<lparr>Name = ''size'', Type = ''weirdtype'', Required = True, Description = ''''\<rparr>]
        ([(''size'', \<lparr>VarType = ''int'', OmitEmpty = True, Doc = ''''\<rparr>)], []))) ''size''
     = Some (OptionalityMismatch ''size'' '''')
   \<and> map_of (snd (matcher
        [\<lparr>Name = ''size'', Type = ''weirdtype'', Required = True, Description = ''''\<rparr>]
        ([(''size'', \<lparr>VarType = ''int'', OmitEmpty = True, Doc = ''''\<rparr>)], []))) ''size''
     \<noteq> Some (UnknownSpecCategory ''weirdtype'' ''int'')"
  by (simp add: matcher_def match_param_def doc_check_def omit_of_def Let_def)

subsection \<open>C2: the documentation check\<close>

text \<open>
  C2, as amended. For a parameter that meets its field, whose name no other parameter
  uses, and whose optionality and type checks pass: when the field's documentation
  equals the description (both may be empty) the entry under its name is what it was
  before the run; otherwise it is the missing-documentation error when the documentation
  is empty and the wrong-documentation error when it is not.
\<close>

theorem documentation_law:
  assumes "map_of flds (Name p) = Some f"
    and "Name p \<notin> set (map Name ps)"
    and "Name p \<notin> set (map Name qs)"
    and "Required p \<noteq> OmitEmpty f"
    and "type_switch (Type p) (VarType f) = ('''', False)"
  shows "map_of (snd (matcher (ps @ p # qs) (flds, errs))) (Name p) =
           (if Doc f = Description p then map_of errs (Name p)
            else if Doc f = '''' then Some (DocumentationMissing (Description p))
            else Some (DocumentationMismatch (Description p) (Doc f)))"
  using matcher_matched[OF assms(1-3), of errs] assigned_type_ok[OF assms(4,5)]
  by (simp add: doc_check_def)

theorem documentation_law_witness:
  "map_of [(''zone'', \<lparr>VarType = ''string'', OmitEmpty = False, Doc = ''''\<rparr>)] ''zone''
     = Some \<lparr>VarType = ''string'', OmitEmpty = False, Doc = ''''\<rparr>
   \<and> ''zone'' \<notin> set (map Name [])
   \<and> Required \<lparr>Name = ''zone'', Type = ''string'', Required = True, Description = ''Zone name''\<rparr>
       \<noteq> OmitEmpty \<lparr>VarType = ''string'', OmitEmpty = False, Doc = ''''\<rparr>
   \<and> type_switch ''string'' ''string'' = ('''', False)
   \<and> map_of (snd (matcher
        [\<lparr>Name = ''zone'', Type = ''string'', Required = True, Description = ''Zone name''\<rparr>]
        ([(''zone'', \<lparr>VarType = ''string'', OmitEmpty = False, Doc = ''''\<rparr>)], []))) ''zone''
     = Some (DocumentationMissing ''Zone name'')"
  using documentation_law[where
      flds = "[(''zone'', \<lparr>VarType = ''string'', OmitEmpty = False, Doc = ''''\<rparr>)]"
      and p = "\<lparr>Name = ''zone'', Type = ''string'', Required = True, Description = ''Zone name''\<rparr>"
      and f = "\<lparr>VarType = ''string'', OmitEmpty = False, Doc = ''''\<rparr>"
      and ps = "[]" and qs = "[]" and errs = "[]"]
  by (simp add: type_switch_def)

theorem documentation_law_counterexample:
  "map_of (snd (matcher
        [\<lparr>Name = ''zone'', Type = ''string'', Required = True, Description = ''''\<rparr>]
        ([(''zone'', \<lparr>VarType = ''string'', OmitEmpty = False, Doc = ''''\<rparr>)], []))) ''zone''
     = None
   \<and> map_of (snd (matcher
        [\<lparr>Name = ''zone'', Type = ''string'', Required = True, Description = ''Zone name''\<rparr>]
        ([(''zone'', \<lparr>VarType = ''string'', OmitEmpty = True, Doc = ''''\<rparr>)], []))) ''zone''
     = Some (OptionalityMismatch ''zone'' '''')"
  by (simp add: matcher_def match_param_def doc_check_def omit_of_def type_switch_def Let_def)

subsection \<open>C3: optionality\<close>

text \<open>
  C3. When a parameter meets its field and \<^verbatim>\<open>Required\<close> equals \<^verbatim>\<open>OmitEmpty\<close>
  (a required parameter on an optional field, or an optional one on a field that is
  not), the loop body records the optionality error under the parameter's name; the
  result of the run never holds a type mismatch under that name; and the optionality
  error is the final entry when no later parameter has the same name.
\<close>

theorem optionality_mismatch_skips_type_check:
  assumes "map_of flds (Name p) = Some f"
    and "Name p \<notin> set (map Name ps)"
    and "Required p = OmitEmpty f"
  shows "map_of (snd (match_params (ps @ [p]) (flds, errs))) (Name p) =
           Some (OptionalityMismatch (Name p) (omit_of p))
       \<and> (\<forall>expected typename.
             map_of (snd (matcher (ps @ p # qs) (flds, errs))) (Name p) \<noteq>
               Some (TypeMismatch expected typename))
       \<and> (Name p \<notin> set (map Name qs) \<longrightarrow>
             map_of (snd (matcher (ps @ p # qs) (flds, errs))) (Name p) =
               Some (OptionalityMismatch (Name p) (omit_of p)))"
proof (intro conjI allI impI)
  show "map_of (snd (match_params (ps @ [p]) (flds, errs))) (Name p) =
           Some (OptionalityMismatch (Name p) (omit_of p))"
    using match_params_recorded(1)[OF assms(1,2), of errs] assigned_optionality[OF assms(3)]
    by simp
next
  fix expected typename
  show "map_of (snd (matcher (ps @ p # qs) (flds, errs))) (Name p) \<noteq>
               Some (TypeMismatch expected typename)"
    using matcher_matched_general[OF assms(1,2), of qs errs] assigned_optionality[OF assms(3)]
    by (simp split: list.splits)
next
  assume "Name p \<notin> set (map Name qs)"
  then show "map_of (snd (matcher (ps @ p # qs) (flds, errs))) (Name p) =
               Some (OptionalityMismatch (Name p) (omit_of p))"
    using matcher_matched[OF assms(1,2), of qs errs] assigned_optionality[OF assms(3)]
    by simp
qed

theorem optionality_mismatch_skips_type_check_witness:
  "map_of [(''zone'', \<lparr>VarType = ''int'', OmitEmpty = True, Doc = ''Zone name''\<rparr>)] ''zone''
     = Some \<lparr>VarType = ''int'', OmitEmpty = True, Doc = ''Zone name''\<rparr>
   \<and> ''zone'' \<notin> set (map Name [])
   \<and> Required \<lparr>Name = ''zone'', Type = ''string'', Required = True, Description = ''Zone name''\<rparr>
       = OmitEmpty \<lparr>VarType = ''int'', OmitEmpty = True, Doc = ''Zone name''\<rparr>
   \<and> map_of (snd (match_params
        ([] @ [\<lparr>Name = ''zone'', Type = ''string'', Required = True, Description = ''Zone name''\<rparr>])
        ([(''zone'', \<lparr>VarType = ''int'', OmitEmpty = True, Doc = ''Zone name''\<rparr>)], []))) ''zone''
     = Some (OptionalityMismatch ''zone'' '''')
   \<and> map_of (snd (matcher
        [\<lparr>Name = ''zone'', Type = ''string'', Required = True, Description = ''Zone name''\<rparr>]
        ([(''zone'', \<lparr>VarType = ''int'', OmitEmpty = True, Doc = ''Zone name''\<rparr>)], []))) ''zone''
     = Some (OptionalityMismatch ''zone'' '''')"
  using optionality_mismatch_skips_type_check[where
      flds = "[(''zone'', \<lparr>VarType = ''int'', OmitEmpty = True, Doc = ''Zone name''\<rparr>)]"
      and p = "\<lparr>Name = ''zone'', Type = ''string'', Required = True, Description = ''Zone name''\<rparr>"
      and f = "\<lparr>VarType = ''int'', OmitEmpty = True, Doc = ''Zone name''\<rparr>"
      and ps = "[]" and qs = "[]" and errs = "[]"]
  by (simp add: omit_of_def)

subsection \<open>C4: one error per name, the last one assigned\<close>

text \<open>
  C4. The keys of the error mapping stay distinct through a run. For a parameter that
  meets its field the loop body is exactly the assignments of \<open>assigned\<close>, made in
  order under the parameter's name, and the final entry under that name is the last of
  them (the earlier entry when there is none), or, when later parameters repeat the
  name, the missing-field error of the last of those, which is assigned later still.
  An error of the type switch, when one is assigned, is the last of the body.
\<close>

theorem last_assignment_survives:
  assumes "map_of flds (Name p) = Some f"
    and "Name p \<notin> set (map Name ps)"
  shows "(distinct (map fst errs) \<longrightarrow>
            distinct (map fst (snd (matcher (ps @ p # qs) (flds, errs)))))
       \<and> match_param p (flds, errs) =
           (AList.delete (Name p) flds,
            foldl (\<lambda>e v. AList.update (Name p) v e) errs (assigned p f))
       \<and> map_of (snd (matcher (ps @ p # qs) (flds, errs))) (Name p) =
           (case filter (\<lambda>q. Name q = Name p) qs of
              [] \<Rightarrow> (if assigned p f = [] then map_of errs (Name p)
                     else Some (last (assigned p f)))
            | q # qs' \<Rightarrow> Some (MissingField (last (q # qs'))))
       \<and> (list_ex is_type_failure (assigned p f) \<longrightarrow> is_type_failure (last (assigned p f)))"
  using matcher_matched_general[OF assms, of qs errs] match_param_matched[OF assms(1), of errs]
    matcher_distinct[of "(flds, errs)" "ps @ p # qs"] assigned_type_failure_last[of p f]
  by simp

theorem last_assignment_survives_witness:
  "map_of [(''count'', \<lparr>VarType = ''int64'', OmitEmpty = False, Doc = ''''\<rparr>)] ''count''
     = Some \<lparr>VarType = ''int64'', OmitEmpty = False, Doc = ''''\<rparr>
   \<and> ''count'' \<notin> set (map Name [])
   \<and> filter (\<lambda>q. Name q = ''count'') [] = []
   \<and> distinct (map fst ([] :: errors_map))
   \<and> list_ex is_type_failure
        (assigned \<lparr>Name = ''count'', Type = ''integer'', Required = True, Description = ''Count''\<rparr>
                  \<lparr>VarType = ''int64'', OmitEmpty = False, Doc = ''''\<rparr>)
   \<and> assigned \<lparr>Name = ''count'', Type = ''integer'', Required = True, Description = ''Count''\<rparr>
               \<lparr>VarType = ''int64'', OmitEmpty = False, Doc = ''''\<rparr>
     = [DocumentationMissing ''Count'', TypeMismatch ''int'' ''int64'']
   \<and> distinct (map fst (snd (matcher
        [\<lparr>Name = ''count'', Type = ''integer'', Required = True, Description = ''Count''\<rparr>]
        ([(''count'', \<lparr>VarType = ''int64'', OmitEmpty = False, Doc = ''''\<rparr>)], []))))
   \<and> map_of (snd (matcher
        [\<lparr>Name = ''count'', Type = ''integer'', Required = True, Description = ''Count''\<rparr>]
        ([(''count'', \<lparr>VarType = ''int64'', OmitEmpty = False, Doc = ''''\<rparr>)], []))) ''count''
     = Some (TypeMismatch ''int'' ''int64'')"
proof -
  have a: "assigned \<lparr>Name = ''count'', Type = ''integer'', Required = True, Description = ''Count''\<rparr>
               \<lparr>VarType = ''int64'', OmitEmpty = False, Doc = ''''\<rparr>
     = [DocumentationMissing ''Count'', TypeMismatch ''int'' ''int64'']"
    by (simp add: assigned_def doc_check_def type_switch_def)
  show ?thesis
    using last_assignment_survives[where
      flds = "[(''count'', \<lparr>VarType = ''int64'', OmitEmpty = False, Doc = ''''\<rparr>)]"
      and p = "\<lparr>Name = ''count'', Type = ''integer'', Required = True, Description = ''Count''\<rparr>"
      and f = "\<lparr>VarType = ''int64'', OmitEmpty = False, Doc = ''''\<rparr>"
      and ps = "[]" and qs = "[]" and errs = "[]"]
    by (simp add: a)
qed

subsection \<open>C5: parameters without a field\<close>

text \<open>
  C5. A parameter whose name is not a key of the fields ends with a missing-field error
  under its name: that of the last parameter carrying this name, which is the parameter
  itself when no other has it. The loop body makes this one assignment and leaves the
  fields as they are.
\<close>

theorem missing_field_only:
  assumes "p \<in> set params"
    and "map_of flds (Name p) = None"
  shows "map_of (snd (matcher params (flds, errs))) (Name p) =
           Some (MissingField (last (filter (\<lambda>q. Name q = Name p) params)))
       \<and> last (filter (\<lambda>q. Name q = Name p) params) \<in> set params
       \<and> Name (last (filter (\<lambda>q. Name q = Name p) params)) = Name p
       \<and> (filter (\<lambda>q. Name q = Name p) params = [p] \<longrightarrow>
            map_of (snd (matcher params (flds, errs))) (Name p) = Some (MissingField p))
       \<and> match_param p (flds, errs) = (flds, AList.update (Name p) (MissingField p) errs)"
proof -
  let ?same = "filter (\<lambda>q. Name q = Name p) params"
  have ne: "?same \<noteq> []"
    using assms(1) by (auto simp: filter_empty_conv)
  then have "last ?same \<in> set ?same" by (rule last_in_set)
  then have mem: "last ?same \<in> set params" and nm: "Name (last ?same) = Name p"
    by auto
  have absent: "map_of (fst (match_params params (flds, errs))) (Name p) = None"
    using assms(2) by (intro match_params_absent) simp
  have "map_of (snd (matcher params (flds, errs))) (Name p) =
          map_of (snd (match_params params (flds, errs))) (Name p)"
    using absent by (rule matcher_errors_absent)
  also have "\<dots> = Some (MissingField (last ?same))"
    using match_params_absent_errors[of "(flds, errs)" "Name p" params] assms(2) ne
    by (simp split: list.splits)
  finally have res: "map_of (snd (matcher params (flds, errs))) (Name p) =
          Some (MissingField (last ?same))" .
  show ?thesis
    using res mem nm match_param_unmatched[OF assms(2), of errs] by auto
qed

theorem missing_field_only_witness:
  "\<lparr>Name = ''zone'', Type = ''string'', Required = True, Description = ''Zone name''\<rparr>
      \<in> set [\<lparr>Name = ''zone'', Type = ''string'', Required = True, Description = ''Zone name''\<rparr>]
   \<and> map_of ([(''other'', \<lparr>VarType = ''string'', OmitEmpty = False, Doc = ''''\<rparr>)]) ''zone'' = None
   \<and> filter (\<lambda>q. Name q = ''zone'')
        [\<lparr>Name = ''zone'', Type = ''string'', Required = True, Description = ''Zone name''\<rparr>]
      = [\<lparr>Name = ''zone'', Type = ''string'', Required = True, Description = ''Zone name''\<rparr>]
   \<and> map_of (snd (matcher
        [\<lparr>Name = ''zone'', Type = ''string'', Required = True, Description = ''Zone name''\<rparr>]
        ([(''other'', \<lparr>VarType = ''string'', OmitEmpty = False, Doc = ''''\<rparr>)], []))) ''zone''
     = Some (MissingField
         \<lparr>Name = ''zone'', Type = ''string'', Required = True, Description = ''Zone name''\<rparr>)"
  using missing_field_only[where
      params = "[\<lparr>Name = ''zone'', Type = ''string'', Required = True, Description = ''Zone name''\<rparr>]"
      and p = "\<lparr>Name = ''zone'', Type = ''string'', Required = True, Description = ''Zone name''\<rparr>"
      and flds = "[(''other'', \<lparr>VarType = ''string'', OmitEmpty = False, Doc = ''''\<rparr>)]"
      and errs = "[]"]
  by simp

subsection \<open>C6: fields no parameter names\<close>

text \<open>
  C6. A field whose serialized name is the name of no parameter ends with the
  extra-field error under that name, and with distinct keys this is the one entry
  under that name.
\<close>

theorem unconsumed_field_is_extra:
  assumes "map_of flds n = Some f"
    and "n \<notin> set (map Name params)"
  shows "map_of (snd (matcher params (flds, errs))) n = Some ExtraField
       \<and> (distinct (map fst errs) \<longrightarrow>
            filter (\<lambda>kv. fst kv = n) (snd (matcher params (flds, errs))) = [(n, ExtraField)])"
proof -
  have "map_of (fst (match_params params (flds, errs))) n = Some f"
    using match_params_other(1)[OF assms(2), of "(flds, errs)"] assms(1) by simp
  then have "n \<in> fst ` set (fst (match_params params (flds, errs)))"
    by (metis map_of_absent_iff option.distinct(1))
  then have res: "map_of (snd (matcher params (flds, errs))) n = Some ExtraField"
    by (simp add: matcher_def Let_def extra_fields_map_of)
  show ?thesis
    using res filter_key_distinct[OF matcher_distinct[of "(flds, errs)" params] res]
    by simp
qed

theorem unconsumed_field_is_extra_witness:
  "map_of [(''extra'', \<lparr>VarType = ''string'', OmitEmpty = False, Doc = ''''\<rparr>)] ''extra''
     = Some \<lparr>VarType = ''string'', OmitEmpty = False, Doc = ''''\<rparr>
   \<and> ''extra'' \<notin> set (map Name
        [\<lparr>Name = ''zone'', Type = ''string'', Required = True, Description = ''Zone name''\<rparr>])
   \<and> distinct (map fst ([] :: errors_map))
   \<and> map_of (snd (matcher
        [\<lparr>Name = ''zone'', Type = ''string'', Required = True, Description = ''Zone name''\<rparr>]
        ([(''extra'', \<lparr>VarType = ''string'', OmitEmpty = False, Doc = ''''\<rparr>)], []))) ''extra''
     = Some ExtraField
   \<and> filter (\<lambda>kv. fst kv = ''extra'') (snd (matcher
        [\<lparr>Name = ''zone'', Type = ''string'', Required = True, Description = ''Zone name''\<rparr>]
        ([(''extra'', \<lparr>VarType = ''string'', OmitEmpty = False, Doc = ''''\<rparr>)], [])))
     = [(''extra'', ExtraField)]"
  using unconsumed_field_is_extra[where
      params = "[\<lparr>Name = ''zone'', Type = ''string'', Required = True, Description = ''Zone name''\<rparr>]"
      and n = "''extra''"
      and f = "\<lparr>VarType = ''string'', OmitEmpty = False, Doc = ''''\<rparr>"
      and flds = "[(''extra'', \<lparr>VarType = ''string'', OmitEmpty = False, Doc = ''''\<rparr>)]"
      and errs = "[]"]
  by simp

subsection \<open>C7: the category short\<close>

text \<open>
  C7, as amended. For a required parameter of type \<^verbatim>\<open>short\<close> that meets a field
  without \<^verbatim>\<open>omitempty\<close>, and whose name no other parameter uses: a type string
  other than \<^verbatim>\<open>int16\<close> gives the type mismatch with \<^verbatim>\<open>int16\<close> expected and the
  field's type string; with \<^verbatim>\<open>int16\<close> the entry is that of the documentation check
  alone.
\<close>

theorem short_accepts_only_int16:
  assumes "map_of flds (Name p) = Some f"
    and "Name p \<notin> set (map Name ps)"
    and "Name p \<notin> set (map Name qs)"
    and "Type p = ''short''"
    and "Required p"
    and "\<not> OmitEmpty f"
  shows "(VarType f \<noteq> ''int16'' \<longrightarrow>
            map_of (snd (matcher (ps @ p # qs) (flds, errs))) (Name p) =
              Some (TypeMismatch ''int16'' (VarType f)))
       \<and> (VarType f = ''int16'' \<longrightarrow>
            map_of (snd (matcher (ps @ p # qs) (flds, errs))) (Name p) =
              (case doc_check p f of Some e \<Rightarrow> Some e | None \<Rightarrow> map_of errs (Name p)))"
proof -
  have opt: "Required p \<noteq> OmitEmpty f" using assms(5,6) by simp
  have sw: "type_switch (Type p) (VarType f) =
              (if VarType f \<noteq> ''int16'' then ''int16'' else '''', False)"
    using assms(4) by (simp add: type_switch_def)
  show ?thesis
  proof (cases "VarType f = ''int16''")
    case True
    then have "type_switch (Type p) (VarType f) = ('''', False)" using sw by simp
    from assigned_type_ok[OF opt this] True show ?thesis
      using matcher_matched[OF assms(1-3), of errs] by (simp split: option.splits)
  next
    case False
    then have "fst (type_switch (Type p) (VarType f)) = ''int16''" using sw by simp
    moreover from this have "fst (type_switch (Type p) (VarType f)) \<noteq> ''''" by simp
    ultimately show ?thesis
      using matcher_matched[OF assms(1-3), of errs] assigned_type_mismatch[OF opt] False
      by simp
  qed
qed

theorem short_accepts_only_int16_witness:
  "map_of [(''size'', \<lparr>VarType = ''int'', OmitEmpty = False, Doc = ''''\<rparr>)] ''size''
     = Some \<lparr>VarType = ''int'', OmitEmpty = False, Doc = ''''\<rparr>
   \<and> ''size'' \<notin> set (map Name [])
   \<and> Type \<lparr>Name = ''size'', Type = ''short'', Required = True, Description = ''''\<rparr> = ''short''
   \<and> Required \<lparr>Name = ''size'', Type = ''short'', Required = True, Description = ''''\<rparr>
   \<and> \<not> OmitEmpty \<lparr>VarType = ''int'', OmitEmpty = False, Doc = ''''\<rparr>
   \<and> ''int'' \<noteq> ''int16''
   \<and> map_of (snd (matcher
        [\<lparr>Name = ''size'', Type = ''short'', Required = True, Description = ''''\<rparr>]
        ([(''size'', \<lparr>VarType = ''int'', OmitEmpty = False, Doc = ''''\<rparr>)], []))) ''size''
     = Some (TypeMismatch ''int16'' ''int'')"
  using short_accepts_only_int16[where
      flds = "[(''size'', \<lparr>VarType = ''int'', OmitEmpty = False, Doc = ''''\<rparr>)]"
      and p = "\<lparr>Name = ''size'', Type = ''short'', Required = True, Description = ''''\<rparr>"
      and f = "\<lparr>VarType = ''int'', OmitEmpty = False, Doc = ''''\<rparr>"
      and ps = "[]" and qs = "[]" and errs = "[]"]
  by simp

theorem short_accepts_only_int16_counterexample:
  "map_of (snd (matcher
        [\<lparr>Name = ''size'', Type = ''short'', Required = True, Description = ''''\<rparr>]
        ([(''size'', \<lparr>VarType = ''int'', OmitEmpty = True, Doc = ''''\<rparr>)], []))) ''size''
     = Some (OptionalityMismatch ''size'' '''')
   \<and> map_of (snd (matcher
        [\<lparr>Name = ''size'', Type = ''short'', Required = True, Description = ''''\<rparr>]
        ([(''size'', \<lparr>VarType = ''int'', OmitEmpty = True, Doc = ''''\<rparr>)], []))) ''size''
     \<noteq> Some (TypeMismatch ''int16'' ''int'')"
  by (simp add: matcher_def match_param_def doc_check_def omit_of_def Let_def)

subsection \<open>C8: the exit code\<close>




subsection \<open>C9: checking twice\<close>

text \<open>
  C9. Checking a command again against the same API entry and parameters gives the same
  command, errors included; the errors do not depend on the fields and errors the
  command held before; and an API list that names the entry twice leaves the same
  commands as naming it once.
\<close>

theorem matcher_rerun_same_errors:
  "check_command a params (check_command a params c) = check_command a params c
   \<and> cmd_errors (check_command a params (c\<lparr>cmd_fields := flds, cmd_errors := errs\<rparr>)) =
       cmd_errors (check_command a params c)
   \<and> process_apis lower '''' [a, a] st = process_apis lower '''' [a] st"
  by (simp add: check_command_reset check_command_idem api_step_twice)

theorem matcher_rerun_same_errors_witness:
  "cmd_errors (check_command
      \<lparr>api_Name = ''listzones'', IsAsync = False,
        Params = [\<lparr>Name = ''id'', Type = ''uuid'', Required = False, Description = ''the ID''\<rparr>],
        Response = []\<rparr>
      [\<lparr>Name = ''id'', Type = ''uuid'', Required = False, Description = ''the ID''\<rparr>]
      (check_command
        \<lparr>api_Name = ''listzones'', IsAsync = False,
          Params = [\<lparr>Name = ''id'', Type = ''uuid'', Required = False, Description = ''the ID''\<rparr>],
          Response = []\<rparr>
        [\<lparr>Name = ''id'', Type = ''uuid'', Required = False, Description = ''the ID''\<rparr>]
        \<lparr>cmd_name = ''listzones'', cmd_sync = '''',
         cmd_s = [\<lparr>sf_Name = ''ID'', sf_IsField = True, sf_Exported = True,
                   sf_TypeString = ''string'', sf_json = Some (''id'', '',omitempty''),
                   sf_doc = None\<rparr>],
         cmd_position = 7, cmd_fields = [], cmd_errors = []\<rparr>))
   = [(''id'', DocumentationMissing ''the ID'')]"
proof -
  have "cmd_errors (check_command
        \<lparr>api_Name = ''listzones'', IsAsync = False,
          Params = [\<lparr>Name = ''id'', Type = ''uuid'', Required = False, Description = ''the ID''\<rparr>],
          Response = []\<rparr>
        [\<lparr>Name = ''id'', Type = ''uuid'', Required = False, Description = ''the ID''\<rparr>]
        \<lparr>cmd_name = ''listzones'', cmd_sync = '''',
         cmd_s = [\<lparr>sf_Name = ''ID'', sf_IsField = True, sf_Exported = True,
                   sf_TypeString = ''string'', sf_json = Some (''id'', '',omitempty''),
                   sf_doc = None\<rparr>],
         cmd_position = 7, cmd_fields = [], cmd_errors = []\<rparr>)
     = [(''id'', DocumentationMissing ''the ID'')]"
    by (simp add: check_command_def matcher_def match_param_def doc_check_def
        type_switch_def omit_of_def Let_def)
  then show ?thesis
    by (simp only: matcher_rerun_same_errors)
qed

subsection \<open>C10: a command that no API entry names\<close>

text \<open>
  C10. In detail mode, when \<^verbatim>\<open>commands\<close> has a struct under the lower-cased
  \<^verbatim>\<open>*cmd\<close> and no API entry has that lower-cased name, the program prints only the
  trailer, with no asynchronous marker and 0 errors, and ends with code 0.
\<close>

theorem unmatched_entity_reports_zero:
  assumes "cmd \<noteq> ''''"
    and "map_of (build_commands lower defs []) (lower cmd) = Some c"
    and "\<forall>a \<in> set apis. lower (api_Name a) \<noteq> lower cmd"
  shows "main_run lower cmd rtype apis defs =
           ([Trailer (cmd_position c) (cmd_name c) '''' 0], 0)"
proof -
  let ?st = "process_apis lower rtype apis (cmd, build_commands lower defs [])"
  have st: "fst ?st = cmd" "map_of (snd ?st) (lower cmd) = Some c"
    using process_apis_untouched[OF assms(3), of rtype "build_commands lower defs []"] assms(2)
    by simp_all
  have "c \<in> snd ` set (build_commands lower defs [])"
    using map_of_SomeD[OF assms(2)] by force
  then have fresh: "cmd_errors c = []" "cmd_sync c = ''''"
    using build_commands_fresh[of "[]" lower defs] by auto
  show ?thesis
    using report_detail[OF assms(1), of lower "snd ?st" "[]"] st fresh
    by (simp add: main_run_def Let_def)
qed

theorem unmatched_entity_reports_zero_witness:
  "''listzones'' \<noteq> ''''
   \<and> map_of (build_commands (\<lambda>s. s)
        [Some \<lparr>obj_Name = ''listzones'', obj_Exported = True,
               obj_Struct = Some
                 [\<lparr>sf_Name = ''ID'', sf_IsField = True, sf_Exported = True, sf_TypeString = ''string'',
                   sf_json = Some (''id'', '',omitempty''), sf_doc = None\<rparr>],
               obj_Pos = 7\<rparr>] []) ''listzones''
      = Some \<lparr>cmd_name = ''listzones'', cmd_sync = '''',
               cmd_s = [\<lparr>sf_Name = ''ID'', sf_IsField = True, sf_Exported = True,
                         sf_TypeString = ''string'', sf_json = Some (''id'', '',omitempty''),
                         sf_doc = None\<rparr>],
               cmd_position = 7, cmd_fields = [], cmd_errors = []\<rparr>
   \<and> api_Name \<lparr>api_Name = ''listtemplates'', IsAsync = False,
          Params = [\<lparr>Name = ''id'', Type = ''uuid'', Required = False, Description = ''the ID''\<rparr>],
          Response = []\<rparr> \<noteq> ''listzones''
   \<and> main_run (\<lambda>s. s) ''listzones'' ''''
        [\<lparr>api_Name = ''listtemplates'', IsAsync = False,
          Params = [\<lparr>Name = ''id'', Type = ''uuid'', Required = False, Description = ''the ID''\<rparr>],
          Response = []\<rparr>]
        [Some \<lparr>obj_Name = ''listzones'', obj_Exported = True,
               obj_Struct = Some
                 [\<lparr>sf_Name = ''ID'', sf_IsField = True, sf_Exported = True, sf_TypeString = ''string'',
                   sf_json = Some (''id'', '',omitempty''), sf_doc = None\<rparr>],
               obj_Pos = 7\<rparr>]
      = ([Trailer 7 ''listzones'' '''' 0], 0)"
  using unmatched_entity_reports_zero[where lower = "\<lambda>s. s" and cmd = "''listzones''"
      and rtype = "''''"
      and defs = "[Some \<lparr>obj_Name = ''listzones'', obj_Exported = True,
               obj_Struct = Some
                 [\<lparr>sf_Name = ''ID'', sf_IsField = True, sf_Exported = True, sf_TypeString = ''string'',
                   sf_json = Some (''id'', '',omitempty''), sf_doc = None\<rparr>],
               obj_Pos = 7\<rparr>]"
      and apis = "[\<lparr>api_Name = ''listtemplates'', IsAsync = False,
          Params = [\<lparr>Name = ''id'', Type = ''uuid'', Required = False, Description = ''the ID''\<rparr>],
          Response = []\<rparr>]"
      and c = "\<lparr>cmd_name = ''listzones'', cmd_sync = '''',
               cmd_s = [\<lparr>sf_Name = ''ID'', sf_IsField = True, sf_Exported = True,
                         sf_TypeString = ''string'', sf_json = Some (''id'', '',omitempty''),
                         sf_doc = None\<rparr>],
               cmd_position = 7, cmd_fields = [], cmd_errors = []\<rparr>"]
  by simp

end
